theory Spec2Isabelle
  imports Main
begin

section \<open>The VEP annotation reporter (vep_annotation_reporter.py)\<close>

text \<open>
  A shallow embedding of \<^verbatim>\<open>src/vcf_annotation_tools/vep_annotation_reporter.py\<close>.
  Python strings are \<open>string\<close>; every Python dictionary is an insertion-ordered
  association list with unique keys; every exception the source can raise is a value of
  \<open>py_error\<close>, and a function that can raise returns \<open>py_error + 'a\<close>.
\<close>

subsection \<open>Python values: exceptions, dictionaries, split and join\<close>

datatype py_error =
    NameError
  | KeyError
  | TypeError
  | AttributeError
  | IndexError
  | BinasciiError
  | UnicodeDecodeError
  | SystemExit string string string string

text \<open>
  \<open>SystemExit chr pos ref alt\<close> is \<^verbatim>\<open>sys.exit(msg)\<close> of line 129, whose message is
  formatted from exactly these four values.
\<close>

type_synonym ('k, 'v) dict = "('k \<times> 'v) list"

fun dict_get :: "('k, 'v) dict \<Rightarrow> 'k \<Rightarrow> 'v option" where
  "dict_get [] k = None"
| "dict_get ((k', v) # d) k = (if k' = k then Some v else dict_get d k)"

text \<open>\<^verbatim>\<open>d[k] = v\<close>: an existing key keeps its place, a new key goes last.\<close>

fun dict_set :: "('k, 'v) dict \<Rightarrow> 'k \<Rightarrow> 'v \<Rightarrow> ('k, 'v) dict" where
  "dict_set [] k v = [(k, v)]"
| "dict_set ((k', v') # d) k v = (if k' = k then (k, v) # d else (k', v') # dict_set d k v)"

text \<open>\<^verbatim>\<open>s.split(sep)\<close> for a one-character separator: never the empty list.\<close>

fun py_split :: "char \<Rightarrow> string \<Rightarrow> string list" where
  "py_split sep [] = [[]]"
| "py_split sep (c # cs) =
     (if c = sep then [] # py_split sep cs
      else (case py_split sep cs of
              [] \<Rightarrow> [[c]]
            | w # ws \<Rightarrow> (c # w) # ws))"

fun py_join :: "string \<Rightarrow> string list \<Rightarrow> string" where
  "py_join sep [] = []"
| "py_join sep [x] = x"
| "py_join sep (x # y # ys) = x @ sep @ py_join sep (y # ys)"

text \<open>\<^verbatim>\<open>str(n)\<close> for the non-negative integer \<^verbatim>\<open>variant.POS\<close>.\<close>

definition digit_char :: "nat \<Rightarrow> char" where
  "digit_char d = char_of (48 + d)"

function str_nat :: "nat \<Rightarrow> string" where
  "str_nat n = (if n < 10 then [digit_char n] else str_nat (n div 10) @ [digit_char (n mod 10)])"
  by pat_completeness auto
termination
  by (relation "measure (\<lambda>n. n)") auto

declare str_nat.simps [simp del]

subsection \<open>The data model\<close>

text \<open>
  An annotation record maps field names to raw values; \<^verbatim>\<open>transcripts\<close> maps an allele
  token to its records; the index \<^verbatim>\<open>vep\<close> is the nested dictionary
  \<^verbatim>\<open>vep[chr][pos][ref][alt]\<close>, whose leaves are a record or Python's \<^verbatim>\<open>None\<close> (here the
  inner \<open>None\<close>; a key that was never stored is the outer \<open>None\<close> of \<open>dict_get\<close>).
\<close>

type_synonym transcript = "(string, string) dict"
type_synonym transcripts = "(string, transcript list) dict"
type_synonym alt_level = "(string, transcript option) dict"
type_synonym ref_level = "(string, alt_level) dict"
type_synonym pos_level = "(string, ref_level) dict"
type_synonym vep_index = "(string, pos_level) dict"

text \<open>
  What the source reads of a cyvcf2 variant: \<^verbatim>\<open>CHROM\<close>, \<^verbatim>\<open>POS\<close>, \<^verbatim>\<open>REF\<close>, \<^verbatim>\<open>ALT\<close>,
  \<^verbatim>\<open>INFO.get('CSQ')\<close>, \<^verbatim>\<open>is_indel\<close> and \<^verbatim>\<open>is_sv\<close>. A header line is the dictionary
  returned by \<^verbatim>\<open>header.info(extra=True)\<close>.
\<close>

record variant =
  CHROM :: string
  POS :: nat
  REF :: string
  ALT :: "string list"
  INFO_CSQ :: "string option"
  is_indel :: bool
  is_sv :: bool

record vcf_file =
  header_iter :: "(string, string) dict list"
  variants :: "variant list"

text \<open>
  The input report as \<^verbatim>\<open>csv.DictReader\<close> yields it: \<^verbatim>\<open>reader.fieldnames\<close>, which is
  Python's \<^verbatim>\<open>None\<close> for a report without a header line (an empty file), and the rows,
  each row a dictionary from column names to cell strings. Reading the files from disk
  and the quoting of cells are not part of the model.
\<close>

record report =
  fieldnames :: "string list option"
  rows :: "(string, string) dict list"

subsection \<open>parse_csq_header (lines 34-40)\<close>

text \<open>
  \<^verbatim>\<open>re.compile('Format: (.*)"').search(d)\<close>: the leftmost position where \<^verbatim>\<open>Format: \<close>
  starts and the rest of the line still holds a double quote; group 1 is greedy, so it
  runs to the last double quote of that line. \<open>None\<close> is no match.
\<close>

definition greedy_to_quote :: "string \<Rightarrow> string option" where
  "greedy_to_quote l =
     (if CHR 0x22 \<in> set l
      then Some (rev (drop 1 (dropWhile (\<lambda>c. c \<noteq> CHR 0x22) (rev l))))
      else None)"

fun format_search :: "string \<Rightarrow> string option" where
  "format_search [] = None"
| "format_search (c # cs) =
     (if take 8 (c # cs) = ''Format: ''
      then (case greedy_to_quote (takeWhile (\<lambda>x. x \<noteq> CHR 0x0A) (drop 8 (c # cs))) of
              Some g \<Rightarrow> Some g
            | None \<Rightarrow> format_search cs)
      else format_search cs)"

text \<open>
  The loop returns at the first header line whose \<^verbatim>\<open>ID\<close> is \<^verbatim>\<open>CSQ\<close>. There
  \<^verbatim>\<open>info[b'Description']\<close> raises KeyError when the key is missing and
  \<^verbatim>\<open>match.group(1)\<close> raises AttributeError when the search found nothing. When no line
  qualifies the function falls off its end and returns Python's \<^verbatim>\<open>None\<close>.
\<close>

fun parse_csq_header :: "(string, string) dict list \<Rightarrow> py_error + string list option" where
  "parse_csq_header [] = Inr None"
| "parse_csq_header (info # hs) =
     (if dict_get info ''ID'' = Some ''CSQ''
      then (case dict_get info ''Description'' of
              None \<Rightarrow> Inl KeyError
            | Some d \<Rightarrow>
                (case format_search d of
                   None \<Rightarrow> Inl AttributeError
                 | Some g \<Rightarrow> Inr (Some (py_split CHR ''|'' g))))
      else parse_csq_header hs)"

subsection \<open>parse_csq_entries (lines 42-52)\<close>

text \<open>Lines 46-48: \<^verbatim>\<open>zip\<close> stops at the shorter list; a repeated key is overwritten.\<close>

fun zip_record :: "transcript \<Rightarrow> string list \<Rightarrow> string list \<Rightarrow> transcript" where
  "zip_record t (key # ks) (val # vs) = zip_record (dict_set t key val) ks vs"
| "zip_record t ks vs = t"

text \<open>Lines 45-48: the record of one entry under the schema \<open>fs\<close>.\<close>

definition entry_record :: "string list \<Rightarrow> string \<Rightarrow> transcript" where
  "entry_record fs entry = zip_record [] fs (py_split CHR ''|'' entry)"

text \<open>Lines 49-51 for one record; \<^verbatim>\<open>transcript['Allele']\<close> raises KeyError.\<close>

definition add_transcript :: "transcripts \<Rightarrow> transcript \<Rightarrow> py_error + transcripts" where
  "add_transcript ts t =
     (case dict_get t ''Allele'' of
        None \<Rightarrow> Inl KeyError
      | Some a \<Rightarrow>
          (case dict_get ts a of
             None \<Rightarrow> Inr (dict_set ts a [t])
           | Some rs \<Rightarrow> Inr (dict_set ts a (rs @ [t]))))"

text \<open>
  The loop of lines 44-51 from a given \<^verbatim>\<open>transcripts\<close>. \<^verbatim>\<open>csq_fields\<close> is \<open>None\<close> when
  \<^verbatim>\<open>parse_csq_header\<close> returned Python's \<^verbatim>\<open>None\<close>: then \<^verbatim>\<open>zip(None, values)\<close> raises
  TypeError in the first iteration.
\<close>

fun csq_entries_loop ::
  "transcripts \<Rightarrow> string list \<Rightarrow> string list option \<Rightarrow> py_error + transcripts" where
  "csq_entries_loop ts [] csq_fields = Inr ts"
| "csq_entries_loop ts (entry # es) csq_fields =
     (case csq_fields of
        None \<Rightarrow> Inl TypeError
      | Some fs \<Rightarrow>
          (case add_transcript ts (entry_record fs entry) of
             Inl e \<Rightarrow> Inl e
           | Inr ts' \<Rightarrow> csq_entries_loop ts' es csq_fields))"

definition parse_csq_entries ::
  "string list \<Rightarrow> string list option \<Rightarrow> py_error + transcripts" where
  "parse_csq_entries csq_entries csq_fields = csq_entries_loop [] csq_entries csq_fields"

subsection \<open>resolve_alleles (lines 54-78)\<close>

text \<open>Lines 59-64: \<^verbatim>\<open>alt[0:1]\<close> is \<open>take 1\<close>, \<^verbatim>\<open>alt[1:]\<close> is \<open>drop 1\<close>.\<close>

definition indel_allele :: "string \<Rightarrow> string \<Rightarrow> string" where
  "indel_allele ref alt =
     (if take 1 alt \<noteq> take 1 ref then alt
      else if drop 1 alt = [] then ''-''
      else drop 1 alt)"

fun indel_loop :: "string \<Rightarrow> (string, string) dict \<Rightarrow> string list \<Rightarrow> (string, string) dict" where
  "indel_loop ref alleles [] = alleles"
| "indel_loop ref alleles (alt # alts) =
     indel_loop ref (dict_set alleles alt (indel_allele ref alt)) alts"

text \<open>Lines 68-73; \<^verbatim>\<open>csq_alleles\<close> is the key view of \<^verbatim>\<open>transcripts\<close>, in its order.\<close>

fun sv_loop ::
  "string \<Rightarrow> string list \<Rightarrow> (string, string) dict \<Rightarrow> string list \<Rightarrow> (string, string) dict" where
  "sv_loop ref csq_alleles alleles [] = alleles"
| "sv_loop ref csq_alleles alleles (alt # alts) =
     sv_loop ref csq_alleles
       (if length alt > length ref \<and> ''insertion'' \<in> set csq_alleles
          then dict_set alleles alt ''insertion''
        else if length alt < length ref \<and> ''deletion'' \<in> set csq_alleles
          then dict_set alleles alt ''deletion''
        else if length csq_alleles = 1
          then dict_set alleles alt (hd csq_alleles)
        else alleles)
       alts"

fun plain_loop :: "(string, string) dict \<Rightarrow> string list \<Rightarrow> (string, string) dict" where
  "plain_loop alleles [] = alleles"
| "plain_loop alleles (alt # alts) = plain_loop (dict_set alleles alt alt) alts"

text \<open>
  Line 67 iterates over the name \<^verbatim>\<open>alts\<close>, which is neither a parameter nor a local of
  \<^verbatim>\<open>resolve_alleles\<close>: Python looks it up among the module's globals. \<open>global_alts\<close> is
  that binding, \<open>None\<close> when the module has none, and then the lookup raises NameError
  before the loop runs.
\<close>

definition resolve_alleles_in ::
  "string list option \<Rightarrow> variant \<Rightarrow> string list \<Rightarrow> py_error + (string, string) dict" where
  "resolve_alleles_in global_alts entry csq_alleles =
     (if is_indel entry then Inr (indel_loop (REF entry) [] (ALT entry))
      else if is_sv entry then
        (case global_alts of
           None \<Rightarrow> Inl NameError
         | Some alts \<Rightarrow> Inr (sv_loop (REF entry) csq_alleles [] alts))
      else Inr (plain_loop [] (ALT entry)))"

text \<open>
  The module binds no global \<^verbatim>\<open>alts\<close> (the \<^verbatim>\<open>alts\<close> of line 103 is a local of
  \<^verbatim>\<open>main\<close>), so this is the function as the program runs it.
\<close>

definition resolve_alleles :: "variant \<Rightarrow> string list \<Rightarrow> py_error + (string, string) dict" where
  "resolve_alleles entry csq_alleles = resolve_alleles_in None entry csq_alleles"

subsection \<open>transcript_for_alt (lines 80-84)\<close>

fun pick_loop :: "transcript list \<Rightarrow> transcript option" where
  "pick_loop [] = None"
| "pick_loop (t # ts) = (if dict_get t ''PICK'' = Some ''1'' then Some t else pick_loop ts)"

definition transcript_for_alt :: "transcripts \<Rightarrow> string \<Rightarrow> py_error + transcript" where
  "transcript_for_alt ts alt =
     (case dict_get ts alt of
        None \<Rightarrow> Inl KeyError
      | Some rs \<Rightarrow>
          (case pick_loop rs of
             Some t \<Rightarrow> Inr t
           | None \<Rightarrow> (case rs of [] \<Rightarrow> Inl IndexError | t # _ \<Rightarrow> Inr t)))"

subsection \<open>Percent-decoding (decode_hex, lines 86-88, and the re.sub of line 150)\<close>

text \<open>
  \<^verbatim>\<open>binascii.unhexlify\<close> reads hexadecimal digits of either case and raises
  \<^verbatim>\<open>binascii.Error\<close> on anything else and on an odd number of digits.
\<close>

definition hex_digit_value :: "char \<Rightarrow> nat option" where
  "hex_digit_value c =
     (let n = (of_char c :: nat) in
      if 48 \<le> n \<and> n \<le> 57 then Some (n - 48)
      else if 65 \<le> n \<and> n \<le> 70 then Some (n - 55)
      else if 97 \<le> n \<and> n \<le> 102 then Some (n - 87)
      else None)"

fun unhexlify :: "string \<Rightarrow> py_error + nat list" where
  "unhexlify [] = Inr []"
| "unhexlify [a] = Inl BinasciiError"
| "unhexlify (a # b # cs) =
     (case hex_digit_value a of
        None \<Rightarrow> Inl BinasciiError
      | Some x \<Rightarrow>
          (case hex_digit_value b of
             None \<Rightarrow> Inl BinasciiError
           | Some y \<Rightarrow>
               (case unhexlify cs of
                  Inl e \<Rightarrow> Inl e
                | Inr bs \<Rightarrow> Inr ((16 * x + y) # bs))))"

text \<open>
  \<^verbatim>\<open>bytes.decode('utf-8')\<close> on the bytes \<^verbatim>\<open>decode_hex\<close> receives. The pattern of
  line 150 matches three characters, so \<^verbatim>\<open>unhexlify\<close> yields one byte: a byte below
  0x80 is the character with that code and any other single byte is no UTF-8 text and
  raises UnicodeDecodeError. (Byte strings with a multi-byte sequence never reach this
  function and are not modelled: they raise here.)
\<close>

definition utf8_decode :: "nat list \<Rightarrow> py_error + string" where
  "utf8_decode bs =
     (if list_all (\<lambda>b. b < 128) bs then Inr (map char_of bs) else Inl UnicodeDecodeError)"

text \<open>The argument is \<^verbatim>\<open>string.group(0)\<close>, the matched text.\<close>

definition decode_hex :: "string \<Rightarrow> py_error + string" where
  "decode_hex group0 =
     (case unhexlify (filter (\<lambda>c. c \<noteq> CHR ''%'') group0) of
        Inl e \<Rightarrow> Inl e
      | Inr bs \<Rightarrow> utf8_decode bs)"

text \<open>The character class \<^verbatim>\<open>[0-9|A-F]\<close> of line 150: inside brackets the bar is a member.\<close>

definition pct_class :: "char \<Rightarrow> bool" where
  "pct_class c = (c \<in> set ''0123456789|ABCDEF'')"

text \<open>
  \<^verbatim>\<open>re.sub(r'%[0-9|A-F][0-9|A-F]', decode_hex, annotation)\<close>: the matches are taken
  leftmost first and do not overlap; the first exception of the callback ends the call.
\<close>

fun re_sub_decode :: "string \<Rightarrow> py_error + string" where
  "re_sub_decode (p # a # b # rest) =
     (if p = CHR ''%'' \<and> pct_class a \<and> pct_class b
      then (case decode_hex [p, a, b] of
              Inl e \<Rightarrow> Inl e
            | Inr s \<Rightarrow>
                (case re_sub_decode rest of
                   Inl e \<Rightarrow> Inl e
                 | Inr r \<Rightarrow> Inr (s @ r)))
      else (case re_sub_decode (a # b # rest) of
              Inl e \<Rightarrow> Inl e
            | Inr r \<Rightarrow> Inr (p # r)))"
| "re_sub_decode s = Inr s"

text \<open>
  Whether \<open>s\<close> holds a match of the pattern of line 150 at some position. A match cannot
  overlap another one (its second and third characters are not \<^verbatim>\<open>%\<close>), so the matches
  that \<^verbatim>\<open>re.sub\<close> replaces are all of them.
\<close>

fun has_pct_match :: "string \<Rightarrow> bool" where
  "has_pct_match (p # a # b # rest) =
     ((p = CHR ''%'' \<and> pct_class a \<and> pct_class b) \<or> has_pct_match (a # b # rest))"
| "has_pct_match s = False"

subsection \<open>main: building the index (lines 98-129)\<close>

text \<open>
  Lines 122-129 on \<^verbatim>\<open>vep[chr][pos][ref]\<close>, here \<open>d\<close>. \<^verbatim>\<open>alleles_dict[alt]\<close> raises
  KeyError for an \<^verbatim>\<open>alt\<close> that \<^verbatim>\<open>resolve_alleles\<close> did not map.
\<close>

fun store_alts ::
  "string \<Rightarrow> string \<Rightarrow> string \<Rightarrow> transcripts \<Rightarrow> (string, string) dict \<Rightarrow> string list
     \<Rightarrow> alt_level \<Rightarrow> py_error + alt_level" where
  "store_alts chr pos ref ts alleles_dict [] d = Inr d"
| "store_alts chr pos ref ts alleles_dict (alt # alts) d =
     (if dict_get d alt = None
      then (case dict_get alleles_dict alt of
              None \<Rightarrow> Inl KeyError
            | Some tok \<Rightarrow>
                (if dict_get ts tok \<noteq> None
                 then (case transcript_for_alt ts tok of
                         Inl e \<Rightarrow> Inl e
                       | Inr t \<Rightarrow>
                           store_alts chr pos ref ts alleles_dict alts (dict_set d alt (Some t)))
                 else store_alts chr pos ref ts alleles_dict alts (dict_set d alt None)))
      else Inl (SystemExit chr pos ref alt))"

text \<open>Lines 118-119: the variant has no CSQ value; every ALT is stored as \<^verbatim>\<open>None\<close>.\<close>

fun store_none :: "string list \<Rightarrow> alt_level \<Rightarrow> alt_level" where
  "store_none [] d = d"
| "store_none (alt # alts) d = store_none alts (dict_set d alt None)"

text \<open>
  One iteration of the loop of line 99. Lines 105-112 create the three outer levels
  where they are missing (\<open>d1\<close>, \<open>d2\<close>, \<open>d3\<close> are \<^verbatim>\<open>vep[chr]\<close>, \<^verbatim>\<open>vep[chr][pos]\<close> and
  \<^verbatim>\<open>vep[chr][pos][ref]\<close> after them); the source then mutates \<^verbatim>\<open>vep[chr][pos][ref]\<close>
  in place, which \<open>put\<close> writes back through the three levels.
\<close>

definition index_variant ::
  "string list option \<Rightarrow> vep_index \<Rightarrow> variant \<Rightarrow> py_error + vep_index" where
  "index_variant csq_fields vep v =
     (let chr = CHROM v; pos = str_nat (POS v); ref = REF v; alts = ALT v;
          d1 = (case dict_get vep chr of None \<Rightarrow> [] | Some d \<Rightarrow> d);
          d2 = (case dict_get d1 pos of None \<Rightarrow> [] | Some d \<Rightarrow> d);
          d3 = (case dict_get d2 ref of None \<Rightarrow> [] | Some d \<Rightarrow> d);
          put = (\<lambda>d. dict_set vep chr (dict_set d1 pos (dict_set d2 ref d)))
      in case INFO_CSQ v of
           None \<Rightarrow> Inr (put (store_none alts d3))
         | Some csq \<Rightarrow>
             (case parse_csq_entries (py_split CHR '','' csq) csq_fields of
                Inl e \<Rightarrow> Inl e
              | Inr ts \<Rightarrow>
                  (case resolve_alleles v (map fst ts) of
                     Inl e \<Rightarrow> Inl e
                   | Inr alleles_dict \<Rightarrow>
                       (case store_alts chr pos ref ts alleles_dict alts d3 of
                          Inl e \<Rightarrow> Inl e
                        | Inr d \<Rightarrow> Inr (put d)))))"

fun build_index ::
  "string list option \<Rightarrow> vep_index \<Rightarrow> variant list \<Rightarrow> py_error + vep_index" where
  "build_index csq_fields vep [] = Inr vep"
| "build_index csq_fields vep (v # vs) =
     (case index_variant csq_fields vep v of
        Inl e \<Rightarrow> Inl e
      | Inr vep' \<Rightarrow> build_index csq_fields vep' vs)"

subsection \<open>main: streaming the report (lines 132-156)\<close>

text \<open>A subscript \<^verbatim>\<open>d[k]\<close> that raises KeyError on a missing key.\<close>

definition subscript :: "('k, 'v) dict \<Rightarrow> 'k \<Rightarrow> py_error + 'v" where
  "subscript d k = (case dict_get d k of None \<Rightarrow> Inl KeyError | Some v \<Rightarrow> Inr v)"

text \<open>Line 147: \<^verbatim>\<open>vep[entry['CHROM']][entry['POS']][entry['REF']][alt]\<close>.\<close>

definition vep_lookup ::
  "vep_index \<Rightarrow> (string, string) dict \<Rightarrow> string \<Rightarrow> py_error + transcript option" where
  "vep_lookup vep entry alt =
     (case subscript entry ''CHROM'' of Inl e \<Rightarrow> Inl e | Inr c \<Rightarrow>
     (case subscript vep c of Inl e \<Rightarrow> Inl e | Inr d1 \<Rightarrow>
     (case subscript entry ''POS'' of Inl e \<Rightarrow> Inl e | Inr p \<Rightarrow>
     (case subscript d1 p of Inl e \<Rightarrow> Inl e | Inr d2 \<Rightarrow>
     (case subscript entry ''REF'' of Inl e \<Rightarrow> Inl e | Inr r \<Rightarrow>
     (case subscript d2 r of Inl e \<Rightarrow> Inl e | Inr d3 \<Rightarrow>
        subscript d3 alt))))))"

text \<open>Lines 148-153 for one ALT, given the stored value.\<close>

definition field_annotation :: "transcript option \<Rightarrow> string \<Rightarrow> py_error + string" where
  "field_annotation vep_annotations field =
     (case vep_annotations of
        None \<Rightarrow> Inr ''-''
      | Some t \<Rightarrow>
          (case dict_get t field of
             None \<Rightarrow> Inr ''-''
           | Some annotation \<Rightarrow> re_sub_decode annotation))"

text \<open>The loop of lines 146-153: the list \<^verbatim>\<open>field_annotations\<close>.\<close>

fun collect_alts ::
  "vep_index \<Rightarrow> (string, string) dict \<Rightarrow> string \<Rightarrow> string list \<Rightarrow> py_error + string list" where
  "collect_alts vep entry field [] = Inr []"
| "collect_alts vep entry field (alt # alts) =
     (case vep_lookup vep entry alt of
        Inl e \<Rightarrow> Inl e
      | Inr ann \<Rightarrow>
          (case field_annotation ann field of
             Inl e \<Rightarrow> Inl e
           | Inr s \<Rightarrow>
               (case collect_alts vep entry field alts of
                  Inl e \<Rightarrow> Inl e
                | Inr ss \<Rightarrow> Inr (s # ss))))"

text \<open>
  The loop of lines 144-154. \<^verbatim>\<open>row\<close> is the same object as \<^verbatim>\<open>entry\<close>, so the value
  stored for one field is what the next field reads.
\<close>

fun add_vep_fields ::
  "vep_index \<Rightarrow> (string, string) dict \<Rightarrow> string list \<Rightarrow> py_error + (string, string) dict" where
  "add_vep_fields vep entry [] = Inr entry"
| "add_vep_fields vep entry (field # more_fields) =
     (case subscript entry ''ALT'' of
        Inl e \<Rightarrow> Inl e
      | Inr a \<Rightarrow>
          (case collect_alts vep entry field (py_split CHR '','' a) of
             Inl e \<Rightarrow> Inl e
           | Inr field_annotations \<Rightarrow>
               add_vep_fields vep (dict_set entry field (py_join '','' field_annotations))
                 more_fields))"

text \<open>
  \<^verbatim>\<open>writer.writerow(row)\<close>: the cells in the order of the writer's field names, the
  empty string for a missing key.
\<close>

definition writerow :: "string list \<Rightarrow> (string, string) dict \<Rightarrow> string list" where
  "writerow names row = map (\<lambda>n. case dict_get row n of None \<Rightarrow> [] | Some v \<Rightarrow> v) names"

text \<open>
  What a run leaves behind: the lines written to the output file (\<open>None\<close> while the file
  has not been opened) and the exception that ended the run, if any.
\<close>

record run =
  written :: "string list list option"
  raised :: "py_error option"

text \<open>The loop of lines 142-155; \<open>out\<close> are the lines written so far.\<close>

fun stream_report ::
  "vep_index \<Rightarrow> string list \<Rightarrow> string list \<Rightarrow> string list list \<Rightarrow> (string, string) dict list
     \<Rightarrow> run" where
  "stream_report vep names vep_fields out [] = \<lparr>written = Some out, raised = None\<rparr>"
| "stream_report vep names vep_fields out (entry # entries) =
     (case add_vep_fields vep entry vep_fields of
        Inl e \<Rightarrow> \<lparr>written = Some out, raised = Some e\<rparr>
      | Inr row \<Rightarrow> stream_report vep names vep_fields (out @ [writerow names row]) entries)"

text \<open>
  Lines 132-156, given the index. Line 139 opens the output file, so from there on the
  file exists; line 140 adds \<^verbatim>\<open>reader.fieldnames\<close> to the requested fields, which raises
  TypeError when the report has no header line; line 141 writes the header.
\<close>

definition report_phase :: "vep_index \<Rightarrow> string list \<Rightarrow> report \<Rightarrow> run" where
  "report_phase vep vep_fields input_tsv =
     (case fieldnames input_tsv of
        None \<Rightarrow> \<lparr>written = Some [], raised = Some TypeError\<rparr>
      | Some fns \<Rightarrow>
          (let names = fns @ vep_fields
           in stream_report vep names vep_fields [names] (rows input_tsv)))"

subsection \<open>main (lines 90-156)\<close>

definition main :: "string list \<Rightarrow> vcf_file \<Rightarrow> report \<Rightarrow> run" where
  "main vep_fields vcf input_tsv =
     (case parse_csq_header (header_iter vcf) of
        Inl e \<Rightarrow> \<lparr>written = None, raised = Some e\<rparr>
      | Inr csq_fields \<Rightarrow>
          (case build_index csq_fields [] (variants vcf) of
             Inl e \<Rightarrow> \<lparr>written = None, raised = Some e\<rparr>
           | Inr vep \<Rightarrow> report_phase vep vep_fields input_tsv))"

subsection \<open>The state of a key in the index\<close>

text \<open>
  What the index holds for the key \<open>(c, p, r, alt)\<close>: \<open>None\<close> when the key was never
  stored (one of the four levels lacks it), \<open>Some None\<close> when it is stored with Python's
  \<^verbatim>\<open>None\<close>, \<open>Some (Some t)\<close> when it is stored with the record \<open>t\<close>. The source has no
  such function; the properties of the report phase are stated with it.
\<close>

definition stored ::
  "vep_index \<Rightarrow> string \<Rightarrow> string \<Rightarrow> string \<Rightarrow> string \<Rightarrow> transcript option option" where
  "stored vep c p r alt =
     (case dict_get vep c of
        None \<Rightarrow> None
      | Some d1 \<Rightarrow>
          (case dict_get d1 p of
             None \<Rightarrow> None
           | Some d2 \<Rightarrow>
               (case dict_get d2 r of
                  None \<Rightarrow> None
                | Some d3 \<Rightarrow> dict_get d3 alt)))"

section \<open>Properties\<close>

subsection \<open>Dictionaries\<close>

lemma dict_get_set: "dict_get (dict_set d k v) k' = (if k' = k then Some v else dict_get d k')"
  by (induction d) auto

subsection \<open>The allele resolver\<close>

lemma indel_loop_get:
  "dict_get (indel_loop ref alleles alts) a =
     (if a \<in> set alts then Some (indel_allele ref a) else dict_get alleles a)"
  by (induction alts arbitrary: alleles) (auto simp: dict_get_set)

text \<open>
  Claim C1. For a variant flagged as an indel, \<^verbatim>\<open>resolve_alleles\<close> returns a mapping, and
  every ALT of the variant is mapped in it: to itself when its first character differs
  from that of REF, else to \<^verbatim>\<open>-\<close> when nothing is left after its first character, else
  to what is left after its first character.
\<close>

theorem indel_token:
  assumes "is_indel entry" and "alt \<in> set (ALT entry)"
  shows "\<exists>alleles. resolve_alleles entry csq_alleles = Inr alleles \<and>
           dict_get alleles alt =
             Some (if take 1 alt \<noteq> take 1 (REF entry) then alt
                   else if drop 1 alt = [] then ''-''
                   else drop 1 alt)"
  using assms
  by (simp add: resolve_alleles_def resolve_alleles_in_def indel_loop_get indel_allele_def)

text \<open>The two examples of the claim: REF A, ALT AT gives T; REF AT, ALT A gives \<^verbatim>\<open>-\<close>.\<close>

theorem indel_token_witness:
  "is_indel \<lparr>CHROM = ''1'', POS = 100, REF = ''A'', ALT = [''AT'', ''G''],
             INFO_CSQ = Some ''T|GENE1|1'', is_indel = True, is_sv = False\<rparr> \<and>
   ''AT'' \<in> set (ALT \<lparr>CHROM = ''1'', POS = 100, REF = ''A'', ALT = [''AT'', ''G''],
             INFO_CSQ = Some ''T|GENE1|1'', is_indel = True, is_sv = False\<rparr>) \<and>
   (\<exists>alleles. resolve_alleles \<lparr>CHROM = ''1'', POS = 100, REF = ''A'', ALT = [''AT'', ''G''],
             INFO_CSQ = Some ''T|GENE1|1'', is_indel = True, is_sv = False\<rparr> [''T'']
         = Inr alleles \<and>
       dict_get alleles ''AT'' = Some ''T'') \<and>
   (\<exists>alleles. resolve_alleles \<lparr>CHROM = ''1'', POS = 100, REF = ''AT'', ALT = [''A''],
             INFO_CSQ = Some ''-|GENE1|1'', is_indel = True, is_sv = False\<rparr> [''-'']
         = Inr alleles \<and>
       dict_get alleles ''A'' = Some ''-'')"
  using indel_token [of "\<lparr>CHROM = ''1'', POS = 100, REF = ''A'', ALT = [''AT'', ''G''],
             INFO_CSQ = Some ''T|GENE1|1'', is_indel = True, is_sv = False\<rparr>" "''AT''" "[''T'']"]
    indel_token [of "\<lparr>CHROM = ''1'', POS = 100, REF = ''AT'', ALT = [''A''],
             INFO_CSQ = Some ''-|GENE1|1'', is_indel = True, is_sv = False\<rparr>" "''A''" "[''-'']"]
  by simp

text \<open>
  Claim C5. The claim gives the precedence by which a structural variant's own ALTs are
  mapped. The source iterates over the unbound name \<^verbatim>\<open>alts\<close> instead: on the variant
  REF N, ALT \<^verbatim>\<open><DEL>\<close>, flagged as a structural variant and not as an indel, with the
  annotation tokens \<^verbatim>\<open>{deletion}\<close>, \<^verbatim>\<open>resolve_alleles\<close> raises NameError, where the
  claim's rule gives the sole token \<^verbatim>\<open>deletion\<close>. The loop body itself does follow the
  claim once \<^verbatim>\<open>alts\<close> is the variant's own ALT list.
\<close>

theorem sv_branch_name_error:
  "resolve_alleles \<lparr>CHROM = ''1'', POS = 100, REF = ''N'', ALT = [''<DEL>''],
      INFO_CSQ = Some ''deletion|GENE1|1'', is_indel = False, is_sv = True\<rparr> [''deletion'']
     = Inl NameError \<and>
   resolve_alleles_in (Some [''<DEL>'']) \<lparr>CHROM = ''1'', POS = 100, REF = ''N'',
      ALT = [''<DEL>''], INFO_CSQ = Some ''deletion|GENE1|1'', is_indel = False,
      is_sv = True\<rparr> [''deletion'']
     = Inr [(''<DEL>'', ''deletion'')]"
  by (simp add: resolve_alleles_def resolve_alleles_in_def)

subsection \<open>The annotation block parser and the transcript selector\<close>

lemma dict_set_fresh: "k \<notin> fst ` set d \<Longrightarrow> dict_set d k v = d @ [(k, v)]"
  by (induction d) auto

lemma zip_record_get:
  "dict_get (zip_record t fs vs) k =
     (case map_of (rev (zip fs vs)) k of Some v \<Rightarrow> Some v | None \<Rightarrow> dict_get t k)"
  by (induction t fs vs rule: zip_record.induct)
     (auto simp: dict_get_set map_add_def split: option.splits)

lemma zip_record_distinct:
  "distinct fs \<Longrightarrow> set fs \<inter> fst ` set t = {} \<Longrightarrow> zip_record t fs vs = t @ zip fs vs"
proof (induction t fs vs rule: zip_record.induct)
  case (1 t key ks val vs)
  then show ?case by (auto simp: dict_set_fresh)
qed auto

lemma map_of_rev_zip_None:
  "(map_of (rev (zip fs vs)) k = None) = (k \<notin> set (take (length vs) fs))"
proof -
  have "fst ` set (rev (zip fs vs)) = set (map fst (zip fs vs))" by simp
  also have "map fst (zip fs vs) = take (min (length fs) (length vs)) fs"
    by (rule map_fst_zip_take)
  also have "take (min (length fs) (length vs)) fs = take (length vs) fs"
    by (simp add: min_def)
  finally show ?thesis by (simp add: map_of_eq_None_iff)
qed

lemma entry_record_has_key:
  "(dict_get (entry_record fs e) k = None) = (k \<notin> set (take (length (py_split CHR ''|'' e)) fs))"
proof (cases "map_of (rev (zip fs (py_split CHR ''|'' e))) k")
  case None
  then show ?thesis
    using map_of_rev_zip_None [of fs "py_split CHR ''|'' e" k]
    by (simp add: entry_record_def zip_record_get)
next
  case (Some v)
  then show ?thesis
    using map_of_rev_zip_None [of fs "py_split CHR ''|'' e" k]
    by (simp add: entry_record_def zip_record_get)
qed

lemma loop_ok:
  "\<forall>e\<in>set es. dict_get (entry_record fs e) ''Allele'' \<noteq> None \<Longrightarrow>
   \<exists>ts'. csq_entries_loop ts es (Some fs) = Inr ts' \<and>
     (\<forall>a. dict_get ts' a =
        (if filter (\<lambda>t. dict_get t ''Allele'' = Some a) (map (entry_record fs) es) = []
         then dict_get ts a
         else Some ((case dict_get ts a of None \<Rightarrow> [] | Some rs \<Rightarrow> rs) @
                    filter (\<lambda>t. dict_get t ''Allele'' = Some a) (map (entry_record fs) es))))"
proof (induction es arbitrary: ts)
  case Nil
  then show ?case by simp
next
  case (Cons e es)
  from Cons.prems obtain a0 where a0: "dict_get (entry_record fs e) ''Allele'' = Some a0"
    by auto
  define ts1 where "ts1 = dict_set ts a0 ((case dict_get ts a0 of None \<Rightarrow> [] | Some rs \<Rightarrow> rs) @ [entry_record fs e])"
  have step: "add_transcript ts (entry_record fs e) = Inr ts1"
    by (simp add: add_transcript_def a0 ts1_def split: option.splits)
  from Cons.prems have "\<forall>e\<in>set es. dict_get (entry_record fs e) ''Allele'' \<noteq> None" by simp
  from Cons.IH [OF this, of ts1] obtain ts' where
    run: "csq_entries_loop ts1 es (Some fs) = Inr ts'" and
    grp: "\<And>a. dict_get ts' a =
        (if filter (\<lambda>t. dict_get t ''Allele'' = Some a) (map (entry_record fs) es) = []
         then dict_get ts1 a
         else Some ((case dict_get ts1 a of None \<Rightarrow> [] | Some rs \<Rightarrow> rs) @
                    filter (\<lambda>t. dict_get t ''Allele'' = Some a) (map (entry_record fs) es)))"
    by blast
  have "csq_entries_loop ts (e # es) (Some fs) = Inr ts'"
    by (simp add: step run)
  moreover have "dict_get ts' a =
        (if filter (\<lambda>t. dict_get t ''Allele'' = Some a) (map (entry_record fs) (e # es)) = []
         then dict_get ts a
         else Some ((case dict_get ts a of None \<Rightarrow> [] | Some rs \<Rightarrow> rs) @
                    filter (\<lambda>t. dict_get t ''Allele'' = Some a) (map (entry_record fs) (e # es))))" for a
    by (cases "a = a0") (simp_all add: grp ts1_def dict_get_set a0)
  ultimately show ?case by blast
qed

lemma loop_fail:
  "\<exists>e\<in>set es. dict_get (entry_record fs e) ''Allele'' = None \<Longrightarrow>
   csq_entries_loop ts es (Some fs) = Inl KeyError"
proof (induction es arbitrary: ts)
  case Nil
  then show ?case by simp
next
  case (Cons e es)
  show ?case
  proof (cases "dict_get (entry_record fs e) ''Allele''")
    case None
    then show ?thesis by (simp add: add_transcript_def)
  next
    case (Some a0)
    with Cons.prems have "\<exists>e\<in>set es. dict_get (entry_record fs e) ''Allele'' = None" by auto
    from Cons.IH [OF this] show ?thesis
      by (simp add: add_transcript_def Some split: option.splits)
  qed
qed

lemma loop_nonempty:
  "csq_entries_loop ts es cf = Inr ts' \<Longrightarrow>
   \<forall>b qs. dict_get ts b = Some qs \<longrightarrow> qs \<noteq> [] \<Longrightarrow>
   \<forall>b qs. dict_get ts' b = Some qs \<longrightarrow> qs \<noteq> []"
proof (induction es arbitrary: ts)
  case Nil
  then show ?case by simp
next
  case (Cons e es)
  from Cons.prems(1) obtain fs ts1 where cf: "cf = Some fs"
    and step: "add_transcript ts (entry_record fs e) = Inr ts1"
    and run: "csq_entries_loop ts1 es cf = Inr ts'"
    by (auto split: option.splits sum.splits)
  have "\<forall>b qs. dict_get ts1 b = Some qs \<longrightarrow> qs \<noteq> []"
    using step Cons.prems(2)
    by (auto simp: add_transcript_def dict_get_set split: option.splits if_splits) blast+
  from Cons.IH [OF run this] show ?case .
qed

lemma pick_loop_mem: "pick_loop rs = Some t \<Longrightarrow> t \<in> set rs"
  by (induction rs) (auto split: if_splits)

lemma pick_loop_first:
  "dict_get t ''PICK'' = Some ''1'' \<Longrightarrow> \<forall>u\<in>set pre. dict_get u ''PICK'' \<noteq> Some ''1'' \<Longrightarrow>
   pick_loop (pre @ t # post) = Some t"
  by (induction pre) auto

lemma pick_loop_none:
  "\<forall>u\<in>set rs. dict_get u ''PICK'' \<noteq> Some ''1'' \<Longrightarrow> pick_loop rs = None"
  by (induction rs) auto

text \<open>
  Claim C9. Every allele group of a mapping that \<^verbatim>\<open>parse_csq_entries\<close> returns is a
  non-empty list, so for every allele key of the mapping \<^verbatim>\<open>transcript_for_alt\<close> returns
  a record (one of that group): neither the subscript nor the fallback to the first
  element can fail.
\<close>

theorem groups_nonempty:
  assumes "parse_csq_entries csq_entries csq_fields = Inr ts" and "dict_get ts a = Some rs"
  shows "rs \<noteq> [] \<and> (\<exists>t. transcript_for_alt ts a = Inr t \<and> t \<in> set rs)"
proof -
  have "\<forall>b qs. dict_get ([] :: transcripts) b = Some qs \<longrightarrow> qs \<noteq> []" by simp
  with assms(1) have "\<forall>b qs. dict_get ts b = Some qs \<longrightarrow> qs \<noteq> []"
    unfolding parse_csq_entries_def by (rule loop_nonempty)
  with assms(2) have ne: "rs \<noteq> []" by blast
  have "\<exists>t. transcript_for_alt ts a = Inr t \<and> t \<in> set rs"
  proof (cases "pick_loop rs")
    case None
    with ne assms(2) show ?thesis
      by (cases rs) (simp_all add: transcript_for_alt_def)
  next
    case (Some t)
    with assms(2) show ?thesis
      by (simp add: transcript_for_alt_def pick_loop_mem)
  qed
  with ne show ?thesis by simp
qed

theorem groups_nonempty_witness:
  "parse_csq_entries [''T|GENE1|0'', ''T|GENE2|0''] (Some [''Allele'', ''Gene'', ''PICK''])
     = Inr [(''T'', [[(''Allele'', ''T''), (''Gene'', ''GENE1''), (''PICK'', ''0'')],
                     [(''Allele'', ''T''), (''Gene'', ''GENE2''), (''PICK'', ''0'')]])] \<and>
   (\<exists>t. transcript_for_alt
          [(''T'', [[(''Allele'', ''T''), (''Gene'', ''GENE1''), (''PICK'', ''0'')],
                     [(''Allele'', ''T''), (''Gene'', ''GENE2''), (''PICK'', ''0'')]])] ''T'' = Inr t \<and>
        t \<in> set [[(''Allele'', ''T''), (''Gene'', ''GENE1''), (''PICK'', ''0'')],
                     [(''Allele'', ''T''), (''Gene'', ''GENE2''), (''PICK'', ''0'')]])"
  using groups_nonempty [of "[''T|GENE1|0'', ''T|GENE2|0'']" "Some [''Allele'', ''Gene'', ''PICK'']"
      "[(''T'', [[(''Allele'', ''T''), (''Gene'', ''GENE1''), (''PICK'', ''0'')],
                     [(''Allele'', ''T''), (''Gene'', ''GENE2''), (''PICK'', ''0'')]])]" "''T''"
      "[[(''Allele'', ''T''), (''Gene'', ''GENE1''), (''PICK'', ''0'')],
                     [(''Allele'', ''T''), (''Gene'', ''GENE2''), (''PICK'', ''0'')]]"]
  by (simp add: parse_csq_entries_def entry_record_def add_transcript_def)

text \<open>
  Claim C10. \<^verbatim>\<open>parse_csq_entries\<close> returns a mapping exactly when every entry has a value
  at a position of the schema named \<^verbatim>\<open>Allele\<close>; when some entry's values end before it
  the parser raises KeyError, as it does for the entry \<^verbatim>\<open>G\<close> under the schema
  \<^verbatim>\<open>Gene|Allele\<close>.
\<close>

theorem allele_precondition:
  "((\<exists>ts. parse_csq_entries es (Some fs) = Inr ts) =
      (\<forall>e\<in>set es. ''Allele'' \<in> set (take (length (py_split CHR ''|'' e)) fs))) \<and>
   ((\<exists>e\<in>set es. ''Allele'' \<notin> set (take (length (py_split CHR ''|'' e)) fs)) \<longrightarrow>
      parse_csq_entries es (Some fs) = Inl KeyError) \<and>
   parse_csq_entries [''G''] (Some [''Gene'', ''Allele'']) = Inl KeyError"
proof -
  have ok: "\<exists>ts. parse_csq_entries es (Some fs) = Inr ts"
    if "\<forall>e\<in>set es. ''Allele'' \<in> set (take (length (py_split CHR ''|'' e)) fs)"
  proof -
    from that have "\<forall>e\<in>set es. dict_get (entry_record fs e) ''Allele'' \<noteq> None"
      by (simp add: entry_record_has_key)
    from loop_ok [OF this, of "[]"] show ?thesis
      unfolding parse_csq_entries_def by blast
  qed
  have bad: "parse_csq_entries es (Some fs) = Inl KeyError"
    if "\<exists>e\<in>set es. ''Allele'' \<notin> set (take (length (py_split CHR ''|'' e)) fs)"
  proof -
    from that have "\<exists>e\<in>set es. dict_get (entry_record fs e) ''Allele'' = None"
      by (simp add: entry_record_has_key)
    then show ?thesis
      unfolding parse_csq_entries_def by (rule loop_fail)
  qed
  have iff: "(\<exists>ts. parse_csq_entries es (Some fs) = Inr ts) =
      (\<forall>e\<in>set es. ''Allele'' \<in> set (take (length (py_split CHR ''|'' e)) fs))"
  proof
    assume "\<exists>ts. parse_csq_entries es (Some fs) = Inr ts"
    then show "\<forall>e\<in>set es. ''Allele'' \<in> set (take (length (py_split CHR ''|'' e)) fs)"
      using bad by fastforce
  next
    assume "\<forall>e\<in>set es. ''Allele'' \<in> set (take (length (py_split CHR ''|'' e)) fs)"
    then show "\<exists>ts. parse_csq_entries es (Some fs) = Inr ts" by (rule ok)
  qed
  have ex: "parse_csq_entries [''G''] (Some [''Gene'', ''Allele'']) = Inl KeyError"
    by (simp add: parse_csq_entries_def entry_record_def add_transcript_def)
  from iff bad ex show ?thesis by blast
qed

theorem allele_precondition_witness:
  "''Allele'' \<in> set (take (length (py_split CHR ''|'' ''T|GENE1'')) [''Gene'', ''Allele'']) \<and>
   (\<exists>ts. parse_csq_entries [''T|GENE1''] (Some [''Gene'', ''Allele'']) = Inr ts) \<and>
   ''Allele'' \<notin> set (take (length (py_split CHR ''|'' ''T'')) [''Gene'', ''Allele'']) \<and>
   parse_csq_entries [''T|GENE1'', ''T''] (Some [''Gene'', ''Allele'']) = Inl KeyError"
  using allele_precondition [of "[''T|GENE1'']" "[''Gene'', ''Allele'']"]
    allele_precondition [of "[''T|GENE1'', ''T'']" "[''Gene'', ''Allele'']"]
  by simp

text \<open>
  Claim C7, as stated for every annotation value and schema, fails where an entry has no
  value for \<^verbatim>\<open>Allele\<close>: under the schema \<^verbatim>\<open>Consequence|Allele\<close> the value
  \<^verbatim>\<open>missense|T,synonymous\<close> raises KeyError instead of yielding a short record.
\<close>

theorem block_parser_counterexample:
  "parse_csq_entries (py_split CHR '','' ''missense|T,synonymous'')
     (Some [''Consequence'', ''Allele'']) = Inl KeyError"
  by (simp add: parse_csq_entries_def entry_record_def add_transcript_def)

text \<open>
  Claim C7, amended. When every comma-separated entry of the value has a value at a
  position of the schema named \<^verbatim>\<open>Allele\<close>, the parser returns a mapping in which each
  allele token is bound to the records of the entries with that token, in entry order,
  and a token of no entry is not a key. The record of an entry pairs the schema with the
  entry's values positionally and stops at the shorter of the two (a repeated field
  name keeps its last value); for a schema without repetitions it is the \<open>zip\<close> itself.
\<close>

theorem block_parser_groups:
  assumes "\<forall>e\<in>set (py_split CHR '','' csq).
             ''Allele'' \<in> set (take (length (py_split CHR ''|'' e)) fs)"
  shows "(\<exists>ts. parse_csq_entries (py_split CHR '','' csq) (Some fs) = Inr ts \<and>
            (\<forall>a. dict_get ts a =
               (case filter (\<lambda>t. dict_get t ''Allele'' = Some a)
                       (map (entry_record fs) (py_split CHR '','' csq)) of
                  [] \<Rightarrow> None
                | r # rs \<Rightarrow> Some (r # rs)))) \<and>
         (\<forall>e k. dict_get (entry_record fs e) k = map_of (rev (zip fs (py_split CHR ''|'' e))) k) \<and>
         (distinct fs \<longrightarrow> (\<forall>e. entry_record fs e = zip fs (py_split CHR ''|'' e)))"
proof -
  from assms have "\<forall>e\<in>set (py_split CHR '','' csq). dict_get (entry_record fs e) ''Allele'' \<noteq> None"
    by (simp add: entry_record_has_key)
  from loop_ok [OF this, of "[]"] obtain ts where
    run: "parse_csq_entries (py_split CHR '','' csq) (Some fs) = Inr ts" and
    grp: "\<And>a. dict_get ts a =
        (if filter (\<lambda>t. dict_get t ''Allele'' = Some a)
              (map (entry_record fs) (py_split CHR '','' csq)) = []
         then None
         else Some (filter (\<lambda>t. dict_get t ''Allele'' = Some a)
              (map (entry_record fs) (py_split CHR '','' csq))))"
    unfolding parse_csq_entries_def by auto
  have "dict_get ts a =
               (case filter (\<lambda>t. dict_get t ''Allele'' = Some a)
                       (map (entry_record fs) (py_split CHR '','' csq)) of
                  [] \<Rightarrow> None
                | r # rs \<Rightarrow> Some (r # rs))" for a
    by (simp add: grp [of a] split: list.splits)
  with run have first: "\<exists>ts. parse_csq_entries (py_split CHR '','' csq) (Some fs) = Inr ts \<and>
            (\<forall>a. dict_get ts a =
               (case filter (\<lambda>t. dict_get t ''Allele'' = Some a)
                       (map (entry_record fs) (py_split CHR '','' csq)) of
                  [] \<Rightarrow> None
                | r # rs \<Rightarrow> Some (r # rs)))"
    by blast
  have second: "\<forall>e k. dict_get (entry_record fs e) k = map_of (rev (zip fs (py_split CHR ''|'' e))) k"
    by (simp add: entry_record_def zip_record_get split: option.splits)
  have third: "distinct fs \<longrightarrow> (\<forall>e. entry_record fs e = zip fs (py_split CHR ''|'' e))"
    by (simp add: entry_record_def zip_record_distinct)
  from first second third show ?thesis by blast
qed

theorem block_parser_groups_witness:
  "list_all (\<lambda>e. ''Allele'' \<in> set (take (length (py_split CHR ''|'' e)) [''Allele'', ''Gene'', ''PICK'']))
     (py_split CHR '','' ''T|GENE1|1,G|GENE3,T|GENE2|0'') \<and>
   (\<exists>ts. parse_csq_entries (py_split CHR '','' ''T|GENE1|1,G|GENE3,T|GENE2|0'')
            (Some [''Allele'', ''Gene'', ''PICK'']) = Inr ts \<and>
      dict_get ts ''T'' = Some [[(''Allele'', ''T''), (''Gene'', ''GENE1''), (''PICK'', ''1'')],
                                [(''Allele'', ''T''), (''Gene'', ''GENE2''), (''PICK'', ''0'')]] \<and>
      dict_get ts ''G'' = Some [[(''Allele'', ''G''), (''Gene'', ''GENE3'')]] \<and>
      dict_get ts ''C'' = None)"
  using block_parser_groups [of "''T|GENE1|1,G|GENE3,T|GENE2|0''" "[''Allele'', ''Gene'', ''PICK'']"]
  by (simp add: parse_csq_entries_def entry_record_def add_transcript_def)

text \<open>The end-to-end scenario of the specification, run through \<^verbatim>\<open>main\<close>.\<close>

lemma scenario_gene1:
  "main [''Gene'']
     \<lparr>header_iter = [[(''ID'', ''CSQ''),
                      (''Description'', ''Consequence annotations. Format: Allele|Gene|PICK'' @ [CHR 0x22])]],
      variants = [\<lparr>CHROM = ''1'', POS = 100, REF = ''A'', ALT = [''T''],
                   INFO_CSQ = Some ''T|GENE1|1,T|GENE2|0'', is_indel = False, is_sv = False\<rparr>]\<rparr>
     \<lparr>fieldnames = Some [''CHROM'', ''POS'', ''REF'', ''ALT''],
      rows = [[(''CHROM'', ''1''), (''POS'', ''100''), (''REF'', ''A''), (''ALT'', ''T'')]]\<rparr>
   = \<lparr>written = Some [[''CHROM'', ''POS'', ''REF'', ''ALT'', ''Gene''],
                      [''1'', ''100'', ''A'', ''T'', ''GENE1'']],
      raised = None\<rparr>"
  by code_simp

text \<open>
  Claim C6. For a non-empty list of records \<^verbatim>\<open>transcripts[alt]\<close>, the selector returns the
  first record whose \<^verbatim>\<open>PICK\<close> is the string 1 (no record before it has one), and the
  first record of the list when no record has one. In the scenario with the value
  \<^verbatim>\<open>T|GENE1|1,T|GENE2|0\<close> under the schema \<^verbatim>\<open>Allele|Gene|PICK\<close>, the report row gets
  GENE1 for the field Gene.
\<close>

theorem pick_selection:
  assumes "dict_get ts alt = Some rs" and "rs \<noteq> []"
  shows "(rs = pre @ t # post \<and> dict_get t ''PICK'' = Some ''1'' \<and>
            (\<forall>u\<in>set pre. dict_get u ''PICK'' \<noteq> Some ''1'')
          \<longrightarrow> transcript_for_alt ts alt = Inr t) \<and>
         ((\<forall>u\<in>set rs. dict_get u ''PICK'' \<noteq> Some ''1'')
          \<longrightarrow> transcript_for_alt ts alt = Inr (hd rs)) \<and>
         main [''Gene'']
           \<lparr>header_iter = [[(''ID'', ''CSQ''),
                      (''Description'', ''Consequence annotations. Format: Allele|Gene|PICK'' @ [CHR 0x22])]],
            variants = [\<lparr>CHROM = ''1'', POS = 100, REF = ''A'', ALT = [''T''],
                   INFO_CSQ = Some ''T|GENE1|1,T|GENE2|0'', is_indel = False, is_sv = False\<rparr>]\<rparr>
           \<lparr>fieldnames = Some [''CHROM'', ''POS'', ''REF'', ''ALT''],
            rows = [[(''CHROM'', ''1''), (''POS'', ''100''), (''REF'', ''A''), (''ALT'', ''T'')]]\<rparr>
         = \<lparr>written = Some [[''CHROM'', ''POS'', ''REF'', ''ALT'', ''Gene''],
                      [''1'', ''100'', ''A'', ''T'', ''GENE1'']],
            raised = None\<rparr>"
proof -
  have a: "transcript_for_alt ts alt = Inr t"
    if "rs = pre @ t # post" "dict_get t ''PICK'' = Some ''1''"
       "\<forall>u\<in>set pre. dict_get u ''PICK'' \<noteq> Some ''1''"
    using that assms(1) pick_loop_first [of t pre post]
    by (simp add: transcript_for_alt_def)
  have b: "transcript_for_alt ts alt = Inr (hd rs)"
    if "\<forall>u\<in>set rs. dict_get u ''PICK'' \<noteq> Some ''1''"
    using that assms pick_loop_none [of rs]
    by (cases rs) (simp_all add: transcript_for_alt_def)
  from a b scenario_gene1 show ?thesis by blast
qed

theorem pick_selection_witness:
  "dict_get [(''T'', [[(''Gene'', ''GENE2''), (''PICK'', ''0'')], [(''Gene'', ''GENE0'')],
                      [(''Gene'', ''GENE1''), (''PICK'', ''1'')],
                      [(''Gene'', ''GENE3''), (''PICK'', ''1'')]])] ''T''
     = Some [[(''Gene'', ''GENE2''), (''PICK'', ''0'')], [(''Gene'', ''GENE0'')],
                      [(''Gene'', ''GENE1''), (''PICK'', ''1'')],
                      [(''Gene'', ''GENE3''), (''PICK'', ''1'')]] \<and>
   transcript_for_alt [(''T'', [[(''Gene'', ''GENE2''), (''PICK'', ''0'')], [(''Gene'', ''GENE0'')],
                      [(''Gene'', ''GENE1''), (''PICK'', ''1'')],
                      [(''Gene'', ''GENE3''), (''PICK'', ''1'')]])] ''T''
     = Inr [(''Gene'', ''GENE1''), (''PICK'', ''1'')] \<and>
   dict_get [(''T'', [[(''Gene'', ''GENE2''), (''PICK'', ''0'')], [(''Gene'', ''GENE0'')]])] ''T''
     = Some [[(''Gene'', ''GENE2''), (''PICK'', ''0'')], [(''Gene'', ''GENE0'')]] \<and>
   transcript_for_alt [(''T'', [[(''Gene'', ''GENE2''), (''PICK'', ''0'')], [(''Gene'', ''GENE0'')]])] ''T''
     = Inr [(''Gene'', ''GENE2''), (''PICK'', ''0'')]"
  using pick_selection [of "[(''T'', [[(''Gene'', ''GENE2''), (''PICK'', ''0'')], [(''Gene'', ''GENE0'')],
                      [(''Gene'', ''GENE1''), (''PICK'', ''1'')],
                      [(''Gene'', ''GENE3''), (''PICK'', ''1'')]])]" "''T''"
        "[[(''Gene'', ''GENE2''), (''PICK'', ''0'')], [(''Gene'', ''GENE0'')],
                      [(''Gene'', ''GENE1''), (''PICK'', ''1'')],
                      [(''Gene'', ''GENE3''), (''PICK'', ''1'')]]"
        "[[(''Gene'', ''GENE2''), (''PICK'', ''0'')], [(''Gene'', ''GENE0'')]]"
        "[(''Gene'', ''GENE1''), (''PICK'', ''1'')]"
        "[[(''Gene'', ''GENE3''), (''PICK'', ''1'')]]"]
    pick_selection [of "[(''T'', [[(''Gene'', ''GENE2''), (''PICK'', ''0'')], [(''Gene'', ''GENE0'')]])]" "''T''"
        "[[(''Gene'', ''GENE2''), (''PICK'', ''0'')], [(''Gene'', ''GENE0'')]]"]
  by (simp add: transcript_for_alt_def)

subsection \<open>Percent-decoding\<close>

lemma pct_class_percent: "\<not> pct_class CHR ''%''"
  by (simp add: pct_class_def)

lemma decode_no_match: "\<not> has_pct_match s \<Longrightarrow> re_sub_decode s = Inr s"
  by (induction s rule: has_pct_match.induct) auto

lemma decode_hex_ascii:
  "hex_digit_value a = Some x \<Longrightarrow> hex_digit_value b = Some y \<Longrightarrow> 16 * x + y < 128 \<Longrightarrow>
   a \<noteq> CHR ''%'' \<Longrightarrow> b \<noteq> CHR ''%'' \<Longrightarrow>
   decode_hex [CHR ''%'', a, b] = Inr [char_of (16 * x + y)]"
  by (simp add: decode_hex_def utf8_decode_def)

lemma decode_first_match:
  assumes "pct_class a" "pct_class b" "decode_hex [CHR ''%'', a, b] = Inr c"
    "re_sub_decode rest = Inr r"
  shows "\<not> has_pct_match pre \<Longrightarrow>
    re_sub_decode (pre @ CHR ''%'' # a # b # rest) = Inr (pre @ c @ r)"
proof (induction pre rule: has_pct_match.induct)
  case (1 p q s rest')
  then show ?case by auto
next
  case "2_1"
  from assms show ?case by simp
next
  case "2_2"
  from assms show ?case by (simp add: pct_class_percent)
next
  case "2_3"
  from assms show ?case by (simp add: pct_class_percent)
qed

text \<open>
  Claim C4, amended. A string without a match of the pattern (a percent sign followed by
  two characters of \<^verbatim>\<open>[0-9|A-F]\<close>) is returned unchanged. Where the leftmost match is a
  percent sign and two upper-case hexadecimal digits of a byte below 0x80, the text
  before it is kept, the match becomes the character with that code, and the rest is
  decoded in the same way. \<^verbatim>\<open>stop%3Dlost\<close> decodes to \<^verbatim>\<open>stop=lost\<close>.
\<close>

theorem percent_decoding:
  "(\<not> has_pct_match s \<longrightarrow> re_sub_decode s = Inr s) \<and>
   (\<not> has_pct_match pre \<and> pct_class a \<and> pct_class b \<and>
    hex_digit_value a = Some x \<and> hex_digit_value b = Some y \<and> 16 * x + y < 128 \<and>
    re_sub_decode rest = Inr r
    \<longrightarrow> re_sub_decode (pre @ CHR ''%'' # a # b # rest) = Inr (pre @ char_of (16 * x + y) # r)) \<and>
   re_sub_decode ''stop%3Dlost'' = Inr ''stop=lost''"
proof -
  have one: "\<not> has_pct_match s \<longrightarrow> re_sub_decode s = Inr s"
    by (simp add: decode_no_match)
  have two: "re_sub_decode (pre @ CHR ''%'' # a # b # rest) = Inr (pre @ char_of (16 * x + y) # r)"
    if "\<not> has_pct_match pre" "pct_class a" "pct_class b"
       "hex_digit_value a = Some x" "hex_digit_value b = Some y" "16 * x + y < 128"
       "re_sub_decode rest = Inr r"
  proof -
    from that(2,3) have "a \<noteq> CHR ''%''" "b \<noteq> CHR ''%''"
      using pct_class_percent by auto
    with that have "decode_hex [CHR ''%'', a, b] = Inr [char_of (16 * x + y)]"
      by (simp add: decode_hex_ascii)
    from decode_first_match [OF that(2,3) this that(7) that(1)] show ?thesis by simp
  qed
  have three: "re_sub_decode ''stop%3Dlost'' = Inr ''stop=lost''"
    by code_simp
  from one two three show ?thesis by blast
qed

theorem percent_decoding_witness:
  "\<not> has_pct_match ''a%3d%zz%'' \<and> re_sub_decode ''a%3d%zz%'' = Inr ''a%3d%zz%'' \<and>
   \<not> has_pct_match ''100%%'' \<and> pct_class CHR ''2'' \<and> pct_class CHR ''C'' \<and>
   hex_digit_value CHR ''2'' = Some 2 \<and> hex_digit_value CHR ''C'' = Some 12 \<and>
   16 * (2::nat) + 12 < 128 \<and> re_sub_decode ''000%3B'' = Inr ''000;'' \<and>
   re_sub_decode ''100%%%2C000%3B'' = Inr ''100%%,000;''"
  using percent_decoding [of "''a%3d%zz%''"] 
   percent_decoding [of _ "''100%%''" "CHR ''2''" "CHR ''C''" 2 12 "''000%3B''" "''000;''"]
  by code_simp

text \<open>
  Claim C4 as stated fails: lower-case hexadecimal digits are not decoded, and a byte
  from 0x80 on raises UnicodeDecodeError instead of yielding text.
\<close>

theorem percent_decoding_counterexample:
  "re_sub_decode ''stop%3dlost'' = Inr ''stop%3dlost'' \<and>
   re_sub_decode ''caf%E9'' = Inl UnicodeDecodeError"
  by code_simp

subsection \<open>The run: schema, index and report\<close>

lemma py_split_nonempty: "py_split sep s \<noteq> []"
  by (induction s) (auto split: list.splits)











text \<open>
  Claim C2. Two records with the key (1, 100, A, T): when the second one has no CSQ value,
  lines 118-119 store \<^verbatim>\<open>None\<close> over the record kept for the first one without any check;
  the run ends normally and the report row gets the placeholder. The claim says the run
  aborts, as it does when the records come in the other order (the check of line 123).
\<close>

theorem duplicate_not_detected:
  "main [''Gene'']
     \<lparr>header_iter = [[(''ID'', ''CSQ''),
                      (''Description'', ''Consequence annotations. Format: Allele|Gene|PICK'' @ [CHR 0x22])]],
      variants = [\<lparr>CHROM = ''1'', POS = 100, REF = ''A'', ALT = [''T''],
                   INFO_CSQ = Some ''T|GENE1|1'', is_indel = False, is_sv = False\<rparr>,
                  \<lparr>CHROM = ''1'', POS = 100, REF = ''A'', ALT = [''T''],
                   INFO_CSQ = None, is_indel = False, is_sv = False\<rparr>]\<rparr>
     \<lparr>fieldnames = Some [''CHROM'', ''POS'', ''REF'', ''ALT''],
      rows = [[(''CHROM'', ''1''), (''POS'', ''100''), (''REF'', ''A''), (''ALT'', ''T'')]]\<rparr>
   = \<lparr>written = Some [[''CHROM'', ''POS'', ''REF'', ''ALT'', ''Gene''],
                      [''1'', ''100'', ''A'', ''T'', ''-'']],
      raised = None\<rparr> \<and>
   main [''Gene'']
     \<lparr>header_iter = [[(''ID'', ''CSQ''),
                      (''Description'', ''Consequence annotations. Format: Allele|Gene|PICK'' @ [CHR 0x22])]],
      variants = [\<lparr>CHROM = ''1'', POS = 100, REF = ''A'', ALT = [''T''],
                   INFO_CSQ = None, is_indel = False, is_sv = False\<rparr>,
                  \<lparr>CHROM = ''1'', POS = 100, REF = ''A'', ALT = [''T''],
                   INFO_CSQ = Some ''T|GENE1|1'', is_indel = False, is_sv = False\<rparr>]\<rparr>
     \<lparr>fieldnames = Some [''CHROM'', ''POS'', ''REF'', ''ALT''],
      rows = [[(''CHROM'', ''1''), (''POS'', ''100''), (''REF'', ''A''), (''ALT'', ''T'')]]\<rparr>
   = \<lparr>written = None, raised = Some (SystemExit ''1'' ''100'' ''A'' ''T'')\<rparr>"
  by code_simp

lemma collect_alts_absent:
  "\<forall>alt\<in>set alts. vep_lookup vep entry alt = Inr None \<Longrightarrow>
   collect_alts vep entry field alts = Inr (map (\<lambda>_. ''-'') alts)"
  by (induction alts) (simp_all add: field_annotation_def)

lemma subscript_dict_set: "k \<noteq> f \<Longrightarrow> subscript (dict_set d f v) k = subscript d k"
  by (simp add: subscript_def dict_get_set)

lemma vep_lookup_dict_set:
  assumes "f \<noteq> ''CHROM''" and "f \<noteq> ''POS''" and "f \<noteq> ''REF''"
  shows "vep_lookup vep (dict_set entry f v) alt = vep_lookup vep entry alt"
proof -
  have c: "subscript (dict_set entry f v) ''CHROM'' = subscript entry ''CHROM''"
    using assms(1) by (simp add: subscript_dict_set)
  have p: "subscript (dict_set entry f v) ''POS'' = subscript entry ''POS''"
    using assms(2) by (simp add: subscript_dict_set)
  have r: "subscript (dict_set entry f v) ''REF'' = subscript entry ''REF''"
    using assms(3) by (simp add: subscript_dict_set)
  show ?thesis
    unfolding vep_lookup_def c p r by (rule refl)
qed

lemma add_vep_fields_absent:
  assumes "\<forall>alt\<in>set (py_split CHR '','' a). vep_lookup vep entry0 alt = Inr None"
  shows "dict_get entry ''ALT'' = Some a \<Longrightarrow>
     \<forall>alt. vep_lookup vep entry alt = vep_lookup vep entry0 alt \<Longrightarrow>
     set fs \<inter> {''CHROM'', ''POS'', ''REF'', ''ALT''} = {} \<Longrightarrow>
     \<exists>row. add_vep_fields vep entry fs = Inr row \<and>
       (\<forall>k. dict_get row k =
          (if k \<in> set fs then Some (py_join '','' (map (\<lambda>_. ''-'') (py_split CHR '','' a)))
           else dict_get entry k))"
proof (induction fs arbitrary: entry)
  case Nil
  then show ?case by simp
next
  case (Cons f fs)
  define dash where "dash = py_join '','' (map (\<lambda>_. ''-'') (py_split CHR '','' a))"
  define entry1 where "entry1 = dict_set entry f dash"
  from Cons.prems(3) have f: "f \<noteq> ''CHROM''" "f \<noteq> ''POS''" "f \<noteq> ''REF''" "f \<noteq> ''ALT''"
    and fs: "set fs \<inter> {''CHROM'', ''POS'', ''REF'', ''ALT''} = {}"
    by auto
  from assms Cons.prems(2)
  have "\<forall>alt\<in>set (py_split CHR '','' a). vep_lookup vep entry alt = Inr None" by simp
  then have col: "collect_alts vep entry f (py_split CHR '','' a)
      = Inr (map (\<lambda>_. ''-'') (py_split CHR '','' a))"
    by (rule collect_alts_absent)
  have step: "add_vep_fields vep entry (f # fs) = add_vep_fields vep entry1 fs"
    by (simp add: subscript_def Cons.prems(1) col entry1_def dash_def)
  have alt1: "dict_get entry1 ''ALT'' = Some a"
    using f Cons.prems(1) by (simp add: entry1_def dict_get_set)
  have look1: "\<forall>alt. vep_lookup vep entry1 alt = vep_lookup vep entry0 alt"
    using f Cons.prems(2) by (simp add: entry1_def vep_lookup_dict_set)
  from Cons.IH [OF alt1 look1 fs] obtain row where
    row: "add_vep_fields vep entry1 fs = Inr row" and
    get: "\<And>k. dict_get row k = (if k \<in> set fs then Some dash else dict_get entry1 k)"
    unfolding dash_def by blast
  have "dict_get row k = (if k \<in> set (f # fs) then Some dash else dict_get entry k)" for k
    by (simp add: get entry1_def dict_get_set)
  with row step show ?case unfolding dash_def by auto
qed

lemma vep_lookup_stored:
  assumes "dict_get entry ''CHROM'' = Some c" and "dict_get entry ''POS'' = Some p"
    and "dict_get entry ''REF'' = Some r"
  shows "vep_lookup vep entry alt =
           (case stored vep c p r alt of None \<Rightarrow> Inl KeyError | Some ann \<Rightarrow> Inr ann)"
  using assms
  by (simp add: vep_lookup_def stored_def subscript_def split: option.splits)

lemma collect_alts_iff:
  assumes "dict_get entry ''CHROM'' = Some c" and "dict_get entry ''POS'' = Some p"
    and "dict_get entry ''REF'' = Some r"
  shows "(collect_alts vep entry field alts = Inr ss) =
           list_all2 (\<lambda>alt s. \<exists>ann. stored vep c p r alt = Some ann \<and>
                                  field_annotation ann field = Inr s) alts ss"
proof (induction alts arbitrary: ss)
  case Nil
  show ?case by auto
next
  case (Cons x xs)
  show ?case
  proof (cases "stored vep c p r x")
    case None
    then show ?thesis
      by (simp add: vep_lookup_stored [OF assms] list_all2_Cons1)
  next
    case (Some ann)
    show ?thesis
    proof (cases "field_annotation ann field")
      case (Inl e)
      with Some show ?thesis
        by (simp add: vep_lookup_stored [OF assms] list_all2_Cons1)
    next
      case (Inr s)
      show ?thesis
      proof (cases "collect_alts vep entry field xs")
        case (Inl e)
        with Some Inr Cons.IH show ?thesis
          by (auto simp: vep_lookup_stored [OF assms] list_all2_Cons1)
      next
        case inr: (Inr ss')
        with Some Inr Cons.IH [of ss'] Cons.IH show ?thesis
          by (auto simp: vep_lookup_stored [OF assms] list_all2_Cons1)
      qed
    qed
  qed
qed

lemma stream_report_prefix:
  "list_all2 (\<lambda>e row. add_vep_fields vep e fs = Inr row) earlier outs \<Longrightarrow>
   stream_report vep names fs out (earlier @ later) =
     stream_report vep names fs (out @ map (writerow names) outs) later"
proof (induction earlier arbitrary: out outs)
  case Nil
  then show ?case by simp
next
  case (Cons e es)
  then obtain row outs' where o: "outs = row # outs'"
    and r: "add_vep_fields vep e fs = Inr row"
    and rest: "list_all2 (\<lambda>e row. add_vep_fields vep e fs = Inr row) es outs'"
    by (auto simp: list_all2_Cons1)
  from Cons.IH [OF rest, of "out @ [writerow names row]"] show ?case
    by (simp add: o r)
qed

text \<open>
  Claim C3, amended. For a report row with the key columns \<open>c\<close>, \<open>p\<close>, \<open>r\<close> and a
  requested field: the loop over the row's ALTs returns a list exactly when every ALT is
  stored in the index and its value for the field decodes, and the list then holds, in
  the order of the ALTs, one value per ALT; for every ALT stored with the absent marker
  \<^verbatim>\<open>None\<close> that value is the placeholder \<^verbatim>\<open>-\<close>, whatever the other ALTs of the row hold.
  A row all of whose ALTs are stored with the absent marker gets the comma-joined
  placeholders for every requested field (the requested fields being other than the four
  key columns, which the loop would overwrite). A row with an ALT that was never stored
  ends the run with an exception, KeyError when none of its ALTs was stored: the header
  and the rows before it are written, that row and the rows after it are not.
\<close>

theorem absent_marker_placeholder:
  assumes "dict_get entry ''CHROM'' = Some c" and "dict_get entry ''POS'' = Some p"
    and "dict_get entry ''REF'' = Some r"
  shows
   "((collect_alts vep entry field alts = Inr ss) =
       list_all2 (\<lambda>alt s. \<exists>ann. stored vep c p r alt = Some ann \<and>
                              field_annotation ann field = Inr s) alts ss) \<and>
    (collect_alts vep entry field alts = Inr ss
     \<longrightarrow> length ss = length alts \<and>
         (\<forall>i<length alts. stored vep c p r (alts ! i) = Some None \<longrightarrow> ss ! i = ''-'')) \<and>
    (dict_get entry ''ALT'' = Some a \<and>
     (\<forall>alt\<in>set (py_split CHR '','' a). stored vep c p r alt = Some None) \<and>
     set vep_fields \<inter> {''CHROM'', ''POS'', ''REF'', ''ALT''} = {}
     \<longrightarrow> (\<exists>row. add_vep_fields vep entry vep_fields = Inr row \<and>
           (\<forall>f\<in>set vep_fields.
              dict_get row f = Some (py_join '','' (map (\<lambda>_. ''-'') (py_split CHR '','' a)))))) \<and>
    (dict_get entry ''ALT'' = Some a \<and>
     (\<exists>alt\<in>set (py_split CHR '','' a). stored vep c p r alt = None) \<and>
     list_all2 (\<lambda>e row. add_vep_fields vep e (field # more_fields) = Inr row) earlier outs
     \<longrightarrow> (\<exists>e. report_phase vep (field # more_fields)
                \<lparr>fieldnames = Some fns, rows = earlier @ entry # later\<rparr>
              = \<lparr>written = Some ((fns @ field # more_fields) #
                                 map (writerow (fns @ field # more_fields)) outs),
                 raised = Some e\<rparr> \<and>
              ((\<forall>alt\<in>set (py_split CHR '','' a). stored vep c p r alt = None)
               \<longrightarrow> e = KeyError)))"
proof -
  note iff = collect_alts_iff [OF assms]
  note look = vep_lookup_stored [OF assms]
  have one: "(collect_alts vep entry field alts = Inr ss) =
       list_all2 (\<lambda>alt s. \<exists>ann. stored vep c p r alt = Some ann \<and>
                              field_annotation ann field = Inr s) alts ss"
    by (rule iff)
  have two: "length ss = length alts \<and>
         (\<forall>i<length alts. stored vep c p r (alts ! i) = Some None \<longrightarrow> ss ! i = ''-'')"
    if "collect_alts vep entry field alts = Inr ss"
  proof -
    from that have rel: "list_all2 (\<lambda>alt s. \<exists>ann. stored vep c p r alt = Some ann \<and>
                              field_annotation ann field = Inr s) alts ss"
      by (simp add: iff)
    then have len: "length ss = length alts"
      by (simp add: list_all2_lengthD)
    have "ss ! i = ''-''" if "i < length alts" "stored vep c p r (alts ! i) = Some None" for i
    proof -
      from list_all2_nthD [OF rel that(1)] that(2)
      have "field_annotation None field = Inr (ss ! i)" by simp
      then show ?thesis by (simp add: field_annotation_def)
    qed
    with len show ?thesis by blast
  qed
  have three: "\<exists>row. add_vep_fields vep entry vep_fields = Inr row \<and>
           (\<forall>f\<in>set vep_fields.
              dict_get row f = Some (py_join '','' (map (\<lambda>_. ''-'') (py_split CHR '','' a))))"
    if "dict_get entry ''ALT'' = Some a"
       "\<forall>alt\<in>set (py_split CHR '','' a). stored vep c p r alt = Some None"
       "set vep_fields \<inter> {''CHROM'', ''POS'', ''REF'', ''ALT''} = {}"
  proof -
    from that(2) have "\<forall>alt\<in>set (py_split CHR '','' a). vep_lookup vep entry alt = Inr None"
      by (simp add: look)
    from add_vep_fields_absent [OF this that(1) _ that(3)] obtain row where
      "add_vep_fields vep entry vep_fields = Inr row"
      "\<And>k. dict_get row k =
          (if k \<in> set vep_fields then Some (py_join '','' (map (\<lambda>_. ''-'') (py_split CHR '','' a)))
           else dict_get entry k)"
      by blast
    then show ?thesis by auto
  qed
  have four: "\<exists>e. report_phase vep (field # more_fields)
                \<lparr>fieldnames = Some fns, rows = earlier @ entry # later\<rparr>
              = \<lparr>written = Some ((fns @ field # more_fields) #
                                 map (writerow (fns @ field # more_fields)) outs),
                 raised = Some e\<rparr> \<and>
              ((\<forall>alt\<in>set (py_split CHR '','' a). stored vep c p r alt = None)
               \<longrightarrow> e = KeyError)"
    if alt: "dict_get entry ''ALT'' = Some a"
      and unseen: "\<exists>alt\<in>set (py_split CHR '','' a). stored vep c p r alt = None"
      and pre: "list_all2 (\<lambda>e row. add_vep_fields vep e (field # more_fields) = Inr row) earlier outs"
  proof -
    have "\<nexists>ss. collect_alts vep entry field (py_split CHR '','' a) = Inr ss"
    proof
      assume "\<exists>ss. collect_alts vep entry field (py_split CHR '','' a) = Inr ss"
      then obtain ss where "list_all2 (\<lambda>alt s. \<exists>ann. stored vep c p r alt = Some ann \<and>
                              field_annotation ann field = Inr s) (py_split CHR '','' a) ss"
        using collect_alts_iff [OF assms] by blast
      then have "\<forall>alt\<in>set (py_split CHR '','' a). \<exists>ann. stored vep c p r alt = Some ann"
        by (auto simp: list_all2_conv_all_nth in_set_conv_nth) blast
      with unseen show False by auto
    qed
    then obtain e where e: "collect_alts vep entry field (py_split CHR '','' a) = Inl e"
      by (cases "collect_alts vep entry field (py_split CHR '','' a)") auto
    have key: "e = KeyError"
      if all: "\<forall>alt\<in>set (py_split CHR '','' a). stored vep c p r alt = None"
    proof -
      obtain x xs where sp: "py_split CHR '','' a = x # xs"
        using py_split_nonempty [of "CHR '',''" a] by (cases "py_split CHR '','' a") auto
      with all have "stored vep c p r x = None" by simp
      with e sp show ?thesis by (simp add: look)
    qed
    have fail: "add_vep_fields vep entry (field # more_fields) = Inl e"
      by (simp add: subscript_def alt e)
    have "report_phase vep (field # more_fields)
                \<lparr>fieldnames = Some fns, rows = earlier @ entry # later\<rparr>
              = \<lparr>written = Some ((fns @ field # more_fields) #
                                 map (writerow (fns @ field # more_fields)) outs),
                 raised = Some e\<rparr>"
      using stream_report_prefix [OF pre, of "fns @ field # more_fields" "[fns @ field # more_fields]"
          "entry # later"] fail
      by (simp add: report_phase_def Let_def)
    with key show ?thesis by blast
  qed
  from one two three four show ?thesis by blast
qed

theorem absent_marker_placeholder_witness:
  "dict_get [(''CHROM'', ''1''), (''POS'', ''100''), (''REF'', ''A''), (''ALT'', ''T,G'')] ''CHROM''
     = Some ''1'' \<and>
   dict_get [(''CHROM'', ''1''), (''POS'', ''100''), (''REF'', ''A''), (''ALT'', ''T,G'')] ''POS''
     = Some ''100'' \<and>
   dict_get [(''CHROM'', ''1''), (''POS'', ''100''), (''REF'', ''A''), (''ALT'', ''T,G'')] ''REF''
     = Some ''A'' \<and>
   stored [(''1'', [(''100'', [(''A'', [(''T'', Some [(''Allele'', ''T''), (''Gene'', ''GENE1'')]),
                                        (''G'', None), (''C'', None)])])])]
     ''1'' ''100'' ''A'' ([''T'', ''G''] ! 1) = Some None \<and>
   collect_alts [(''1'', [(''100'', [(''A'', [(''T'', Some [(''Allele'', ''T''), (''Gene'', ''GENE1'')]),
                                        (''G'', None), (''C'', None)])])])]
     [(''CHROM'', ''1''), (''POS'', ''100''), (''REF'', ''A''), (''ALT'', ''T,G'')] ''Gene''
     [''T'', ''G''] = Inr [''GENE1'', ''-''] \<and>
   [''GENE1'', ''-''] ! 1 = ''-'' \<and>
   list_all (\<lambda>alt. stored [(''1'', [(''100'', [(''A'',
                 [(''T'', Some [(''Allele'', ''T''), (''Gene'', ''GENE1'')]),
                  (''G'', None), (''C'', None)])])])] ''1'' ''100'' ''A'' alt = Some None)
     (py_split CHR '','' ''G,C'') \<and>
   (\<exists>row. add_vep_fields [(''1'', [(''100'', [(''A'',
                 [(''T'', Some [(''Allele'', ''T''), (''Gene'', ''GENE1'')]),
                  (''G'', None), (''C'', None)])])])]
            [(''CHROM'', ''1''), (''POS'', ''100''), (''REF'', ''A''), (''ALT'', ''G,C'')]
            [''Gene'', ''Consequence''] = Inr row \<and>
          dict_get row ''Gene'' = Some ''-,-'' \<and> dict_get row ''Consequence'' = Some ''-,-'') \<and>
   list_all (\<lambda>alt. stored [(''1'', [(''100'', [(''A'',
                 [(''T'', Some [(''Allele'', ''T''), (''Gene'', ''GENE1'')]),
                  (''G'', None), (''C'', None)])])])] ''1'' ''100'' ''A'' alt = None)
     (py_split CHR '','' ''X,Y'') \<and>
   report_phase [(''1'', [(''100'', [(''A'',
                 [(''T'', Some [(''Allele'', ''T''), (''Gene'', ''GENE1'')]),
                  (''G'', None), (''C'', None)])])])] [''Gene'']
     \<lparr>fieldnames = Some [''CHROM'', ''POS'', ''REF'', ''ALT''],
      rows = [[(''CHROM'', ''1''), (''POS'', ''100''), (''REF'', ''A''), (''ALT'', ''T,G'')],
              [(''CHROM'', ''1''), (''POS'', ''100''), (''REF'', ''A''), (''ALT'', ''X,Y'')],
              [(''CHROM'', ''1''), (''POS'', ''100''), (''REF'', ''A''), (''ALT'', ''G,C'')]]\<rparr>
   = \<lparr>written = Some [[''CHROM'', ''POS'', ''REF'', ''ALT'', ''Gene''],
                      [''1'', ''100'', ''A'', ''T,G'', ''GENE1,-'']],
      raised = Some KeyError\<rparr>"
proof -
  let ?vep = "[(''1'', [(''100'', [(''A'', [(''T'', Some [(''Allele'', ''T''), (''Gene'', ''GENE1'')]),
                                        (''G'', None), (''C'', None)])])])] :: vep_index"
  let ?e1 = "[(''CHROM'', ''1''), (''POS'', ''100''), (''REF'', ''A''), (''ALT'', ''T,G'')]"
  let ?e2 = "[(''CHROM'', ''1''), (''POS'', ''100''), (''REF'', ''A''), (''ALT'', ''G,C'')]"
  let ?e3 = "[(''CHROM'', ''1''), (''POS'', ''100''), (''REF'', ''A''), (''ALT'', ''X,Y'')]"
  let ?row1 = "[(''CHROM'', ''1''), (''POS'', ''100''), (''REF'', ''A''), (''ALT'', ''T,G''),
                (''Gene'', ''GENE1,-'')]"
  let ?names = "[''CHROM'', ''POS'', ''REF'', ''ALT'']"
  have k1: "dict_get ?e1 ''CHROM'' = Some ''1''" "dict_get ?e1 ''POS'' = Some ''100''"
    "dict_get ?e1 ''REF'' = Some ''A''"
    by simp_all
  have k2: "dict_get ?e2 ''CHROM'' = Some ''1''" "dict_get ?e2 ''POS'' = Some ''100''"
    "dict_get ?e2 ''REF'' = Some ''A''"
    by simp_all
  have k3: "dict_get ?e3 ''CHROM'' = Some ''1''" "dict_get ?e3 ''POS'' = Some ''100''"
    "dict_get ?e3 ''REF'' = Some ''A''"
    by simp_all
  have stT: "stored ?vep ''1'' ''100'' ''A'' ''T'' = Some (Some [(''Allele'', ''T''), (''Gene'', ''GENE1'')])"
    by code_simp
  have stG: "stored ?vep ''1'' ''100'' ''A'' ''G'' = Some None"
    by code_simp
  have stC: "stored ?vep ''1'' ''100'' ''A'' ''C'' = Some None"
    by code_simp
  have stX: "stored ?vep ''1'' ''100'' ''A'' ''X'' = None"
    by code_simp
  have stY: "stored ?vep ''1'' ''100'' ''A'' ''Y'' = None"
    by code_simp
  have faT: "field_annotation (Some [(''Allele'', ''T''), (''Gene'', ''GENE1'')]) ''Gene'' = Inr ''GENE1''"
    by code_simp
  have faN: "field_annotation None ''Gene'' = Inr ''-''"
    by code_simp
  have sG: "stored ?vep ''1'' ''100'' ''A'' ([''T'', ''G''] ! 1) = Some None"
    using stG by simp
  have rel: "list_all2 (\<lambda>alt s. \<exists>ann. stored ?vep ''1'' ''100'' ''A'' alt = Some ann \<and>
                 field_annotation ann ''Gene'' = Inr s) [''T'', ''G''] [''GENE1'', ''-'']"
    using faT faN
    by (simp only: list_all2_Cons list_all2_Nil stT stG option.inject simp_thms ex_simps)
  note t1 = absent_marker_placeholder [where vep = ?vep and field = "''Gene''" and alts = "[''T'', ''G'']"
      and ss = "[''GENE1'', ''-'']", OF k1]
  from t1 [THEN conjunct1] rel
  have c1: "collect_alts ?vep ?e1 ''Gene'' [''T'', ''G''] = Inr [''GENE1'', ''-'']"
    by (rule iffD2)
  from t1 [THEN conjunct2, THEN conjunct1] c1
  have "\<forall>i<length [''T'', ''G'']. stored ?vep ''1'' ''100'' ''A'' ([''T'', ''G''] ! i) = Some None
          \<longrightarrow> [''GENE1'', ''-''] ! i = ''-''"
    by blast
  then have "1 < length [''T'', ''G''] \<longrightarrow> stored ?vep ''1'' ''100'' ''A'' ([''T'', ''G''] ! 1) = Some None
          \<longrightarrow> [''GENE1'', ''-''] ! 1 = ''-''"
    by (rule spec)
  with sG have c2: "[''GENE1'', ''-''] ! 1 = ''-''"
    by simp
  have sp2: "py_split CHR '','' ''G,C'' = [''G'', ''C'']"
    by code_simp
  have sp3: "py_split CHR '','' ''X,Y'' = [''X'', ''Y'']"
    by code_simp
  have a2: "dict_get ?e2 ''ALT'' = Some ''G,C''"
    by simp
  have h2: "\<forall>alt\<in>set (py_split CHR '','' ''G,C''). stored ?vep ''1'' ''100'' ''A'' alt = Some None"
    by (simp add: sp2 stG stC)
  have d2: "set [''Gene'', ''Consequence''] \<inter> {''CHROM'', ''POS'', ''REF'', ''ALT''} = {}"
    by simp
  have j2: "py_join '','' (map (\<lambda>_. ''-'') (py_split CHR '','' ''G,C'')) = ''-,-''"
    by (simp add: sp2)
  note t2 = absent_marker_placeholder [where vep = ?vep and a = "''G,C''"
      and vep_fields = "[''Gene'', ''Consequence'']", OF k2]
  from t2 [THEN conjunct2, THEN conjunct2, THEN conjunct1] a2 h2 d2
  have "\<exists>row. add_vep_fields ?vep ?e2 [''Gene'', ''Consequence''] = Inr row \<and>
          (\<forall>f\<in>set [''Gene'', ''Consequence''].
             dict_get row f = Some (py_join '','' (map (\<lambda>_. ''-'') (py_split CHR '','' ''G,C''))))"
    by blast
  then have c3: "\<exists>row. add_vep_fields ?vep ?e2 [''Gene'', ''Consequence''] = Inr row \<and>
          dict_get row ''Gene'' = Some ''-,-'' \<and> dict_get row ''Consequence'' = Some ''-,-''"
    by (simp add: j2)
  have a3: "dict_get ?e3 ''ALT'' = Some ''X,Y''"
    by simp
  have h3: "\<forall>alt\<in>set (py_split CHR '','' ''X,Y''). stored ?vep ''1'' ''100'' ''A'' alt = None"
    by (simp add: sp3 stX stY)
  have h3': "\<exists>alt\<in>set (py_split CHR '','' ''X,Y''). stored ?vep ''1'' ''100'' ''A'' alt = None"
    by (simp add: sp3 stX stY)
  have r1: "add_vep_fields ?vep ?e1 [''Gene''] = Inr ?row1"
    by code_simp
  have pre: "list_all2 (\<lambda>e row. add_vep_fields ?vep e [''Gene''] = Inr row) [?e1] [?row1]"
    using r1 by (simp only: list_all2_Cons list_all2_Nil simp_thms)
  have wr: "map (writerow [''CHROM'', ''POS'', ''REF'', ''ALT'', ''Gene'']) [?row1]
      = [[''1'', ''100'', ''A'', ''T,G'', ''GENE1,-'']]"
    by code_simp
  note t3 = absent_marker_placeholder [where vep = ?vep and a = "''X,Y''"
      and field = "''Gene''" and more_fields = "[]" and earlier = "[?e1]" and outs = "[?row1]"
      and fns = ?names and later = "[?e2]", OF k3]
  from t3 [THEN conjunct2, THEN conjunct2, THEN conjunct2] a3 h3' pre
  have "\<exists>e. report_phase ?vep [''Gene'']
                \<lparr>fieldnames = Some ?names, rows = [?e1] @ ?e3 # [?e2]\<rparr>
              = \<lparr>written = Some ((?names @ [''Gene'']) # map (writerow (?names @ [''Gene''])) [?row1]),
                 raised = Some e\<rparr> \<and>
              ((\<forall>alt\<in>set (py_split CHR '','' ''X,Y''). stored ?vep ''1'' ''100'' ''A'' alt = None)
               \<longrightarrow> e = KeyError)"
    by blast
  with h3 have "report_phase ?vep [''Gene'']
                \<lparr>fieldnames = Some ?names, rows = [?e1] @ ?e3 # [?e2]\<rparr>
              = \<lparr>written = Some ((?names @ [''Gene'']) # map (writerow (?names @ [''Gene''])) [?row1]),
                 raised = Some KeyError\<rparr>"
    by blast
  then have c4: "report_phase ?vep [''Gene'']
     \<lparr>fieldnames = Some ?names, rows = [?e1, ?e3, ?e2]\<rparr>
   = \<lparr>written = Some [[''CHROM'', ''POS'', ''REF'', ''ALT'', ''Gene''],
                      [''1'', ''100'', ''A'', ''T,G'', ''GENE1,-'']],
      raised = Some KeyError\<rparr>"
    by (simp only: wr append.simps)
  from h2 have h2': "list_all (\<lambda>alt. stored ?vep ''1'' ''100'' ''A'' alt = Some None)
     (py_split CHR '','' ''G,C'')"
    by (simp only: list_all_iff)
  from h3 have h3'': "list_all (\<lambda>alt. stored ?vep ''1'' ''100'' ''A'' alt = None)
     (py_split CHR '','' ''X,Y'')"
    by (simp only: list_all_iff)
  show ?thesis
    by (intro conjI) (rule k1 sG c1 c2 h2' c3 h3'' c4)+
qed

text \<open>
  Claim C3 as stated fails for a key that was never stored: the row (1, 100, A, G) against
  an index holding only (1, 100, A, T) raises KeyError after the header line is written.
  It also fails for a requested field named like a key column: the value stored under
  \<^verbatim>\<open>ALT\<close> for the first field is the ALT that the next field looks up.
\<close>

theorem unseen_key_counterexample:
  "main [''Gene'']
     \<lparr>header_iter = [[(''ID'', ''CSQ''),
                      (''Description'', ''Consequence annotations. Format: Allele|Gene|PICK'' @ [CHR 0x22])]],
      variants = [\<lparr>CHROM = ''1'', POS = 100, REF = ''A'', ALT = [''T''],
                   INFO_CSQ = Some ''T|GENE1|1'', is_indel = False, is_sv = False\<rparr>]\<rparr>
     \<lparr>fieldnames = Some [''CHROM'', ''POS'', ''REF'', ''ALT''],
      rows = [[(''CHROM'', ''1''), (''POS'', ''100''), (''REF'', ''A''), (''ALT'', ''G'')]]\<rparr>
   = \<lparr>written = Some [[''CHROM'', ''POS'', ''REF'', ''ALT'', ''Gene'']],
      raised = Some KeyError\<rparr> \<and>
   stored [(''1'', [(''100'', [(''A'', [(''T'', None)])])])] ''1'' ''100'' ''A'' ''T'' = Some None \<and>
   add_vep_fields [(''1'', [(''100'', [(''A'', [(''T'', None)])])])]
     [(''CHROM'', ''1''), (''POS'', ''100''), (''REF'', ''A''), (''ALT'', ''T'')] [''ALT'', ''Gene'']
     = Inl KeyError"
  by code_simp

end
